theory Spec2Isabelle
  imports Main "HOL-Library.Word"
begin

section \<open>Go values\<close>

text \<open>
  The helpers of \<^verbatim>\<open>upup/pkg/fi/cloudup/spotinsttasks/helper.go\<close> are embedded as HOL
  functions. A Go pointer \<^verbatim>\<open>*T\<close> is a \<open>T option\<close> (\<open>None\<close> is \<^verbatim>\<open>nil\<close>), a Go string is
  a list of bytes, \<^verbatim>\<open>int32\<close> and \<^verbatim>\<open>int64\<close> are \<open>32 word\<close> and \<open>64 word\<close>, and Go's
  platform-sized \<^verbatim>\<open>int\<close> is a \<open>'w word\<close> of either width. A function that can hit a nil
  dereference returns an option: \<open>None\<close> is the run-time panic. A Go result pair
  \<^verbatim>\<open>(value, error)\<close> of a function that returns one or the other is a sum, \<open>Inl\<close> the
  error.
\<close>

subsection \<open>Slices\<close>

text \<open>
  A slice is either \<^verbatim>\<open>nil\<close> or a (possibly empty) sequence: \<^verbatim>\<open>var out []T\<close> is
  \<open>NilSlice\<close>, \<^verbatim>\<open>make([]T, 0, n)\<close> is the empty non-nil slice (its capacity is not
  observable in the results), and \<^verbatim>\<open>append\<close> always yields a non-nil slice.
\<close>

datatype 'a slice = NilSlice | Slice "'a list"

fun elems :: "'a slice \<Rightarrow> 'a list" where
  "elems NilSlice = []"
| "elems (Slice xs) = xs"

definition make_empty :: "nat \<Rightarrow> 'a slice" where
  "make_empty capacity = Slice []"

definition append_slice :: "'a slice \<Rightarrow> 'a \<Rightarrow> 'a slice" where
  "append_slice s x = Slice (elems s @ [x])"

subsection \<open>Maps and their iteration\<close>

text \<open>
  A Go \<^verbatim>\<open>map[string]string\<close> is a finite map. \<^verbatim>\<open>for key, value := range m\<close> visits
  every entry once, in an order the language leaves open; the order is a parameter of
  the model. \<open>iteration_order order m\<close> says that \<open>order\<close> is one of the orders Go may
  choose for \<open>m\<close>, and \<open>range_map order m\<close> is the sequence of entries the loop sees.
\<close>

definition iteration_order :: "'k list \<Rightarrow> ('k \<rightharpoonup> 'v) \<Rightarrow> bool" where
  "iteration_order order m = (distinct order \<and> set order = dom m)"

definition range_map :: "'k list \<Rightarrow> ('k \<rightharpoonup> 'v) \<Rightarrow> ('k \<times> 'v) list" where
  "range_map order m = List.map_filter (\<lambda>k. map_option (Pair k) (m k)) order"

subsection \<open>Errors\<close>

text \<open>
  Go error values. \<open>External msg\<close> is an error made by a collaborator;
  \<open>RequiredField name\<close> is the value of \<^verbatim>\<open>fi.RequiredField(name)\<close>; \<open>Errorf format args\<close>
  is the value of \<^verbatim>\<open>fmt.Errorf(format, args...)\<close>, kept as the format string and its
  arguments (the rendering of \<^verbatim>\<open>%q\<close> and \<^verbatim>\<open>%v\<close> is the standard library's).
\<close>

datatype error =
    External string
  | RequiredField string
  | Errorf string "arg list"
and arg = ArgString string | ArgError error

text \<open>The calls made to the two collaborators, in the order they happen.\<close>

datatype call = Call_GetMachineTypeInfo string | Call_ResolveImage string

subsection \<open>Pointer helpers of package fi\<close>

text \<open>
  Modelled from the spec: the pointer helpers \<^verbatim>\<open>fi.String\<close>, \<^verbatim>\<open>fi.Bool\<close>, \<^verbatim>\<open>fi.Int\<close>,
  \<^verbatim>\<open>fi.Int64\<close>, \<^verbatim>\<open>fi.StringValue\<close>, \<^verbatim>\<open>fi.Int32Value\<close> and \<^verbatim>\<open>fi.Int64Value\<close> are declared
  in \<^verbatim>\<open>upup/pkg/fi\<close>, outside helper.go. The constructors return
  a pointer to their argument; the \<^verbatim>\<open>Value\<close> readers return the value pointed to, and
  the zero value of the type for \<^verbatim>\<open>nil\<close> (an absent size is coerced to 0, an absent
  volume type is not "gp2").
\<close>

definition fi_String :: "string \<Rightarrow> string option" where
  "fi_String v = Some v"

definition fi_Bool :: "bool \<Rightarrow> bool option" where
  "fi_Bool v = Some v"

definition fi_Int :: "'w::len word \<Rightarrow> 'w word option" where
  "fi_Int v = Some v"

definition fi_Int64 :: "64 word \<Rightarrow> 64 word option" where
  "fi_Int64 v = Some v"

definition fi_StringValue :: "string option \<Rightarrow> string" where
  "fi_StringValue v = (case v of None \<Rightarrow> [] | Some s \<Rightarrow> s)"

definition fi_Int32Value :: "32 word option \<Rightarrow> 32 word" where
  "fi_Int32Value v = (case v of None \<Rightarrow> 0 | Some n \<Rightarrow> n)"

definition fi_Int64Value :: "64 word option \<Rightarrow> 64 word" where
  "fi_Int64Value v = (case v of None \<Rightarrow> 0 | Some n \<Rightarrow> n)"

section \<open>Data model\<close>

text \<open>
  The wire records of the two API families (\<^verbatim>\<open>awseg\<close>: elastic group, \<^verbatim>\<open>awsoc\<close>: ocean).
  Only the fields that helper.go reads or writes are kept; every other field of a
  freshly built record is its zero value and is never touched.
\<close>

record awseg_Tag =
  Key :: "string option"
  Value :: "string option"

record awsoc_Tag =
  Key :: "string option"
  Value :: "string option"

record awseg_AutoScaleLabel =
  Key :: "string option"
  Value :: "string option"

record awsoc_Label =
  Key :: "string option"
  Value :: "string option"

record awsoc_Taint =
  Key :: "string option"
  Value :: "string option"
  Effect :: "string option"

record (overloaded) ('w::len) awseg_EBS =
  DeleteOnTermination :: "bool option"
  VolumeSize :: "'w word option"
  VolumeType :: "string option"
  IOPS :: "'w word option"

record (overloaded) ('w::len) awseg_BlockDeviceMapping =
  DeviceName :: "string option"
  VirtualName :: "string option"
  EBS :: "'w awseg_EBS option"

text \<open>The internal block-device mapping, \<^verbatim>\<open>awstasks.BlockDeviceMapping\<close>.\<close>

record BlockDeviceMapping =
  VirtualName :: "string option"
  EbsDeleteOnTermination :: "bool option"
  EbsVolumeSize :: "64 word option"
  EbsVolumeType :: "string option"
  EbsVolumeIops :: "64 word option"

text \<open>
  \<^verbatim>\<open>RootVolumeOpts\<close> is declared elsewhere in the package; the types of its fields are
  the ones their uses in \<^verbatim>\<open>buildRootDevice\<close> fix (\<^verbatim>\<open>fi.Int32Value(opts.Size)\<close>,
  \<^verbatim>\<open>EbsVolumeType: opts.Type\<close>, \<^verbatim>\<open>fi.Int32Value(opts.IOPS)\<close>).
\<close>

record RootVolumeOpts =
  Type :: "string option"
  Size :: "32 word option"
  IOPS :: "32 word option"

text \<open>\<^verbatim>\<open>ec2.Image\<close>, and the one method of \<^verbatim>\<open>awsup.AWSCloud\<close> that is called.\<close>

record Image =
  RootDeviceName :: "string option"

record AWSCloud =
  ResolveImage :: "string \<Rightarrow> Image option \<times> error option"

text \<open>
  \<^verbatim>\<open>awsup.EphemeralDevice\<close> and the machine-type descriptor, seen through its
  \<^verbatim>\<open>EphemeralDevices()\<close> method (a slice of pointers).
\<close>

record EphemeralDevice =
  DeviceName :: string
  VirtualName :: string

record AWSMachineTypeInfo =
  EphemeralDevices :: "EphemeralDevice option list"

record Subnet =
  ID :: "string option"

section \<open>Tags and labels\<close>

definition buildElastigroupTags :: "string list \<Rightarrow> (string \<rightharpoonup> string) \<Rightarrow> awseg_Tag slice" where
  "buildElastigroupTags order tags =
     fold (\<lambda>(key, value) out.
             append_slice out \<lparr>awseg_Tag.Key = fi_String key, Value = fi_String value\<rparr>)
       (range_map order tags) (make_empty (length (range_map order tags)))"

definition buildOceanTags :: "string list \<Rightarrow> (string \<rightharpoonup> string) \<Rightarrow> awsoc_Tag slice" where
  "buildOceanTags order tags =
     fold (\<lambda>(key, value) out.
             append_slice out \<lparr>awsoc_Tag.Key = fi_String key, Value = fi_String value\<rparr>)
       (range_map order tags) (make_empty (length (range_map order tags)))"

definition buildAutoScaleLabels ::
  "string list \<Rightarrow> (string \<rightharpoonup> string) \<Rightarrow> awseg_AutoScaleLabel slice" where
  "buildAutoScaleLabels order labels =
     fold (\<lambda>(key, value) out.
             append_slice out
               \<lparr>awseg_AutoScaleLabel.Key = fi_String key, Value = fi_String value\<rparr>)
       (range_map order labels) (make_empty (length (range_map order labels)))"

definition buildOceanLabels :: "string list \<Rightarrow> (string \<rightharpoonup> string) \<Rightarrow> awsoc_Label slice" where
  "buildOceanLabels order labels =
     fold (\<lambda>(key, value) out.
             append_slice out \<lparr>awsoc_Label.Key = fi_String key, Value = fi_String value\<rparr>)
       (range_map order labels) (make_empty (length (range_map order labels)))"

section \<open>Block devices\<close>

subsection \<open>Ephemeral devices\<close>

text \<open>
  The loop over \<^verbatim>\<open>instanceType.EphemeralDevices()\<close>: each device writes its entry, a
  later device with the same name overwrites an earlier one, and reading a field of a
  nil device panics.
\<close>

fun ephemeral_loop ::
  "EphemeralDevice option list \<Rightarrow> (string \<rightharpoonup> BlockDeviceMapping)
     \<Rightarrow> (string \<rightharpoonup> BlockDeviceMapping) option" where
  "ephemeral_loop [] blockDeviceMappings = Some blockDeviceMappings"
| "ephemeral_loop (None # eds) blockDeviceMappings = None"
| "ephemeral_loop (Some ed # eds) blockDeviceMappings =
     ephemeral_loop eds
       (blockDeviceMappings(EphemeralDevice.DeviceName ed \<mapsto>
          \<lparr>BlockDeviceMapping.VirtualName = fi_String (EphemeralDevice.VirtualName ed),
           EbsDeleteOnTermination = None, EbsVolumeSize = None,
           EbsVolumeType = None, EbsVolumeIops = None\<rparr>))"

text \<open>
  \<^verbatim>\<open>awsup.GetMachineTypeInfo\<close> is the machine-type metadata collaborator, a parameter
  here; the log of collaborator calls is passed through and returned.
\<close>

definition buildEphemeralDevices ::
  "(string \<Rightarrow> AWSMachineTypeInfo option \<times> error option) \<Rightarrow> string option \<Rightarrow> call list
     \<Rightarrow> (error + (string \<rightharpoonup> BlockDeviceMapping)) option \<times> call list" where
  "buildEphemeralDevices GetMachineTypeInfo instanceTypeName calls =
     (case instanceTypeName of
        None \<Rightarrow> (Some (Inl (RequiredField ''InstanceType'')), calls)
      | Some name \<Rightarrow>
          (let (instanceType, err) = GetMachineTypeInfo name;
               calls' = calls @ [Call_GetMachineTypeInfo name]
           in case err of
                Some e \<Rightarrow> (Some (Inl e), calls')
              | None \<Rightarrow>
                  (case instanceType of
                     None \<Rightarrow> (None, calls')
                   | Some info \<Rightarrow>
                       (map_option Inr (ephemeral_loop (EphemeralDevices info) Map.empty),
                        calls'))))"

subsection \<open>Root device\<close>

definition resolveImage ::
  "AWSCloud option \<Rightarrow> string \<Rightarrow> call list \<Rightarrow> (error + Image) option \<times> call list" where
  "resolveImage cloud name calls =
     (case cloud of
        None \<Rightarrow> (None, calls)
      | Some c \<Rightarrow>
          (let (img, err) = ResolveImage c name;
               calls' = calls @ [Call_ResolveImage name]
           in case err of
                Some e \<Rightarrow>
                  (Some (Inl (Errorf ''spotinst: unable to resolve image %q: %v''
                                [ArgString name, ArgError e])), calls')
              | None \<Rightarrow>
                  (case img of
                     None \<Rightarrow>
                       (Some (Inl (Errorf ''spotinst: unable to resolve image %q: not found''
                                     [ArgString name])), calls')
                   | Some found \<Rightarrow> (Some (Inr found), calls'))))"

definition buildRootDevice ::
  "AWSCloud option \<Rightarrow> string option \<Rightarrow> RootVolumeOpts option \<Rightarrow> call list
     \<Rightarrow> (error + (string \<rightharpoonup> BlockDeviceMapping)) option \<times> call list" where
  "buildRootDevice cloud imageID opts calls =
     (case resolveImage cloud (fi_StringValue imageID) calls of
        (None, calls') \<Rightarrow> (None, calls')
      | (Some (Inl err), calls') \<Rightarrow> (Some (Inl err), calls')
      | (Some (Inr img), calls') \<Rightarrow>
          (let rootDeviceName = fi_StringValue (RootDeviceName img) in
           case opts of
             None \<Rightarrow> (None, calls')
           | Some opts \<Rightarrow>
               (let rootDeviceMapping =
                      \<lparr>BlockDeviceMapping.VirtualName = None,
                       EbsDeleteOnTermination = fi_Bool True,
                       EbsVolumeSize = fi_Int64 (scast (fi_Int32Value (Size opts))),
                       EbsVolumeType = Type opts,
                       EbsVolumeIops = None\<rparr>;
                    rootDeviceMapping =
                      (if RootVolumeOpts.IOPS opts \<noteq> None \<and> fi_StringValue (Type opts) \<noteq> ''gp2''
                       then rootDeviceMapping
                              \<lparr>EbsVolumeIops :=
                                 fi_Int64 (scast (fi_Int32Value (RootVolumeOpts.IOPS opts)))\<rparr>
                       else rootDeviceMapping)
                in (Some (Inr (Map.empty(rootDeviceName \<mapsto> rootDeviceMapping))), calls'))))"

subsection \<open>Conversion to the wire format\<close>

definition buildBlockDeviceMapping ::
  "string \<Rightarrow> BlockDeviceMapping option \<Rightarrow> ('w::len) awseg_BlockDeviceMapping option" where
  "buildBlockDeviceMapping deviceName i =
     (case i of
        None \<Rightarrow> None
      | Some i \<Rightarrow>
          (let out = \<lparr>awseg_BlockDeviceMapping.DeviceName = fi_String deviceName,
                    VirtualName = BlockDeviceMapping.VirtualName i,
                    EBS = None\<rparr>
           in if EbsDeleteOnTermination i \<noteq> None \<or> EbsVolumeSize i \<noteq> None
                 \<or> EbsVolumeType i \<noteq> None
              then
                (let ebs = \<lparr>DeleteOnTermination = EbsDeleteOnTermination i,
                            VolumeSize = fi_Int (scast (fi_Int64Value (EbsVolumeSize i))),
                            VolumeType = EbsVolumeType i,
                            IOPS = None\<rparr>;
                     ebs = (if EbsVolumeIops i \<noteq> None
                               \<and> fi_StringValue (EbsVolumeType i) \<noteq> ''gp2''
                            then ebs\<lparr>awseg_EBS.IOPS :=
                                       fi_Int (scast (fi_Int64Value (EbsVolumeIops i)))\<rparr>
                            else ebs)
                 in Some (out\<lparr>EBS := Some ebs\<rparr>))
              else Some out))"

section \<open>Taints\<close>

subsection \<open>The pattern\<close>

text \<open>
  \<^verbatim>\<open>(?P<Key>.+)\=(?P<Value>.+)\:(?P<Effect>.+)\<close> is a valid pattern, so
  \<^verbatim>\<open>regexp.Compile\<close> returns no error. Go's \<^verbatim>\<open>FindStringSubmatch\<close> returns the
  leftmost match, and among the matches that start there the one a backtracking
  matcher finds first: each \<^verbatim>\<open>.+\<close> is greedy, it takes the longest run it can and gives
  characters back only while the rest of the pattern fails. \<^verbatim>\<open>.\<close> is any character
  but the newline. The three separators are ASCII, so matching bytes and matching
  UTF-8 code points cut the string at the same places.

  The matcher is written in continuation style: \<open>dot_plus s k\<close> tries the candidates
  for \<^verbatim>\<open>.+\<close> at the head of \<open>s\<close> from the longest to the shortest and hands the
  captured text and the remaining input to the rest of the pattern \<open>k\<close>.
\<close>

definition dot :: "char \<Rightarrow> bool" where
  "dot c = (c \<noteq> CHR 0x0A)"

fun longest_first :: "nat \<Rightarrow> string \<Rightarrow> (string \<Rightarrow> string \<Rightarrow> 'a option) \<Rightarrow> 'a option" where
  "longest_first 0 s k = None"
| "longest_first (Suc n) s k =
     (case k (take (Suc n) s) (drop (Suc n) s) of
        Some m \<Rightarrow> Some m
      | None \<Rightarrow> longest_first n s k)"

definition dot_plus :: "string \<Rightarrow> (string \<Rightarrow> string \<Rightarrow> 'a option) \<Rightarrow> 'a option" where
  "dot_plus s k = longest_first (length (takeWhile dot s)) s k"

definition literal :: "char \<Rightarrow> string \<Rightarrow> (string \<Rightarrow> 'a option) \<Rightarrow> 'a option" where
  "literal c s k = (case s of [] \<Rightarrow> None | x # rest \<Rightarrow> if x = c then k rest else None)"

text \<open>
  A match of the pattern at the head of the input: the whole match followed by the
  three groups, as \<^verbatim>\<open>FindStringSubmatch\<close> lays them out.
\<close>

definition match_here :: "string \<Rightarrow> string list option" where
  "match_here s =
     dot_plus s (\<lambda>key s1.
       literal (CHR ''='') s1 (\<lambda>s2.
         dot_plus s2 (\<lambda>val s3.
           literal (CHR '':'') s3 (\<lambda>s4.
             dot_plus s4 (\<lambda>effect s5.
               Some [key @ ''='' @ val @ '':'' @ effect, key, val, effect])))))"

text \<open>The leftmost match; the empty list is the \<^verbatim>\<open>nil\<close> slice of a failed search.\<close>

fun FindStringSubmatch :: "string \<Rightarrow> string list" where
  "FindStringSubmatch [] = (case match_here [] of Some m \<Rightarrow> m | None \<Rightarrow> [])"
| "FindStringSubmatch (c # rest) =
     (case match_here (c # rest) of Some m \<Rightarrow> m | None \<Rightarrow> FindStringSubmatch rest)"

definition SubexpNames :: "string list" where
  "SubexpNames = ['''', ''Key'', ''Value'', ''Effect'']"

subsection \<open>The parser\<close>

text \<open>
  The inner loop over \<^verbatim>\<open>re.SubexpNames()\<close>. \<^verbatim>\<open>match[i]\<close> panics when \<open>i\<close> is not below
  the length of \<open>match\<close>, which the guard \<^verbatim>\<open>i <= len(match)\<close> alone does not exclude.
\<close>

fun assign_groups ::
  "(nat \<times> string) list \<Rightarrow> string list \<Rightarrow> awsoc_Taint \<Rightarrow> awsoc_Taint option" where
  "assign_groups [] match taint = Some taint"
| "assign_groups ((i, name) # names) match taint =
     (if 0 < i \<and> i \<le> length match then
        (if name = ''Key'' then
           (if i < length match
            then assign_groups names match (taint\<lparr>awsoc_Taint.Key := fi_String (match ! i)\<rparr>)
            else None)
         else if name = ''Value'' then
           (if i < length match
            then assign_groups names match (taint\<lparr>awsoc_Taint.Value := fi_String (match ! i)\<rparr>)
            else None)
         else if name = ''Effect'' then
           (if i < length match
            then assign_groups names match (taint\<lparr>Effect := fi_String (match ! i)\<rparr>)
            else None)
         else assign_groups names match taint)
      else assign_groups names match taint)"

fun taints_loop :: "string list \<Rightarrow> awsoc_Taint slice \<Rightarrow> awsoc_Taint slice option" where
  "taints_loop [] out = Some out"
| "taints_loop (t # taints) out =
     (case assign_groups (enumerate 0 SubexpNames) (FindStringSubmatch t)
             \<lparr>awsoc_Taint.Key = None, Value = None, Effect = None\<rparr> of
        None \<Rightarrow> None
      | Some taint \<Rightarrow>
          taints_loop taints
            (if awsoc_Taint.Key taint \<noteq> None \<and> awsoc_Taint.Value taint \<noteq> None
                \<and> Effect taint \<noteq> None
             then append_slice out taint else out))"

definition buildOceanTaints :: "string list \<Rightarrow> (error + awsoc_Taint slice) option" where
  "buildOceanTaints taints = map_option Inr (taints_loop taints NilSlice)"

text \<open>
  What one string contributes to the result: the record of the three groups of its
  leftmost match, or nothing when the pattern matches nowhere in it.
\<close>

definition parsed_taint :: "string \<Rightarrow> awsoc_Taint option" where
  "parsed_taint t =
     (case FindStringSubmatch t of
        [whole, key, val, effect] \<Rightarrow>
          Some \<lparr>awsoc_Taint.Key = Some key, Value = Some val, Effect = Some effect\<rparr>
      | _ \<Rightarrow> None)"

section \<open>Subnets\<close>

text \<open>
  Modelled from the spec: \<^verbatim>\<open>utils.StringSlicesEqualIgnoreOrder\<close> is declared in
  \<^verbatim>\<open>upup/pkg/fi/utils\<close>, outside helper.go. The specification
  says that it compares the two identifier sets for equality, ignoring order and
  ignoring the multiplicity of duplicates.
\<close>

definition StringSlicesEqualIgnoreOrder :: "string list \<Rightarrow> string list \<Rightarrow> bool" where
  "StringSlicesEqualIgnoreOrder l r = (set l = set r)"

text \<open>
  The first loop reads \<^verbatim>\<open>*s.ID\<close> with no check: a nil subnet or a nil identifier
  panics.
\<close>

fun left_ids :: "Subnet option list \<Rightarrow> string slice \<Rightarrow> string slice option" where
  "left_ids [] lIDs = Some lIDs"
| "left_ids (None # l) lIDs = None"
| "left_ids (Some s # l) lIDs =
     (case ID s of
        None \<Rightarrow> None
      | Some ident \<Rightarrow> left_ids l (append_slice lIDs ident))"

text \<open>
  The second loop returns \<^verbatim>\<open>false\<close> from the function (\<open>Inl False\<close>) at the first
  subnet without an identifier; the diagnostic it logs there does not change the
  result.
\<close>

fun right_ids :: "Subnet option list \<Rightarrow> string slice \<Rightarrow> (bool + string slice) option" where
  "right_ids [] rIDs = Some (Inr rIDs)"
| "right_ids (None # r) rIDs = None"
| "right_ids (Some s # r) rIDs =
     (case ID s of
        None \<Rightarrow> Some (Inl False)
      | Some ident \<Rightarrow> right_ids r (append_slice rIDs ident))"

definition subnetSlicesEqualIgnoreOrder ::
  "Subnet option list \<Rightarrow> Subnet option list \<Rightarrow> bool option" where
  "subnetSlicesEqualIgnoreOrder l r =
     (case left_ids l NilSlice of
        None \<Rightarrow> None
      | Some lIDs \<Rightarrow>
          (case right_ids r NilSlice of
             None \<Rightarrow> None
           | Some (Inl b) \<Rightarrow> Some b
           | Some (Inr rIDs) \<Rightarrow> Some (StringSlicesEqualIgnoreOrder (elems lIDs) (elems rIDs))))"

section \<open>Auxiliary definitions\<close>

text \<open>
  The mapping that \<^verbatim>\<open>buildRootDevice\<close> builds for given options, written in one piece
  (the proofs show that the function builds exactly this), and the concrete inputs at
  which the properties below are exercised.
\<close>

definition rootDeviceMapping :: "RootVolumeOpts \<Rightarrow> BlockDeviceMapping" where
  "rootDeviceMapping opts =
     \<lparr>BlockDeviceMapping.VirtualName = None,
      EbsDeleteOnTermination = Some True,
      EbsVolumeSize = Some (scast (fi_Int32Value (Size opts))),
      EbsVolumeType = Type opts,
      EbsVolumeIops =
        (if RootVolumeOpts.IOPS opts \<noteq> None \<and> Type opts \<noteq> Some ''gp2''
         then Some (scast (fi_Int32Value (RootVolumeOpts.IOPS opts))) else None)\<rparr>"

definition io1_mapping :: BlockDeviceMapping where
  "io1_mapping = \<lparr>BlockDeviceMapping.VirtualName = Some ''ephemeral0'',
     EbsDeleteOnTermination = None, EbsVolumeSize = None,
     EbsVolumeType = Some ''io1'', EbsVolumeIops = Some 3000\<rparr>"

definition delete_only_mapping :: BlockDeviceMapping where
  "delete_only_mapping = \<lparr>BlockDeviceMapping.VirtualName = None,
     EbsDeleteOnTermination = Some True, EbsVolumeSize = None,
     EbsVolumeType = None, EbsVolumeIops = None\<rparr>"

definition xvda_image :: Image where
  "xvda_image = \<lparr>RootDeviceName = Some ''/dev/xvda''\<rparr>"

definition resolving_cloud :: AWSCloud where
  "resolving_cloud = \<lparr>ResolveImage = (\<lambda>name. (Some xvda_image, None))\<rparr>"

definition failing_cloud :: AWSCloud where
  "failing_cloud = \<lparr>ResolveImage = (\<lambda>name. (None, Some (External ''RequestLimitExceeded'')))\<rparr>"

definition failing_machine_types :: "string \<Rightarrow> AWSMachineTypeInfo option \<times> error option" where
  "failing_machine_types name = (None, Some (External ''unknown instance type''))"

definition io1_opts :: RootVolumeOpts where
  "io1_opts = \<lparr>Type = Some ''io1'', Size = Some 64, IOPS = Some 3000\<rparr>"

definition gp2_opts :: RootVolumeOpts where
  "gp2_opts = \<lparr>Type = Some ''gp2'', Size = Some 64, IOPS = Some 3000\<rparr>"

definition two_tags :: "string \<rightharpoonup> string" where
  "two_tags = [''Name'' \<mapsto> ''nodes'', ''env'' \<mapsto> ''prod'']"

definition subnet_a :: Subnet where
  "subnet_a = \<lparr>ID = Some ''subnet-a''\<rparr>"

definition subnet_b :: Subnet where
  "subnet_b = \<lparr>ID = Some ''subnet-b''\<rparr>"

definition subnet_unset :: Subnet where
  "subnet_unset = \<lparr>ID = None\<rparr>"

section \<open>Properties\<close>

subsection \<open>Block devices\<close>

lemma fi_StringValue_gp2: "(fi_StringValue t \<noteq> ''gp2'') = (t \<noteq> Some ''gp2'')"
  by (cases t) (auto simp: fi_StringValue_def)

lemma buildRootDevice_resolved:
  assumes "ResolveImage c (fi_StringValue imageID) = (Some img, None)"
  shows "buildRootDevice (Some c) imageID (Some ropts) calls =
     (Some (Inr [fi_StringValue (RootDeviceName img) \<mapsto> rootDeviceMapping ropts]),
      calls @ [Call_ResolveImage (fi_StringValue imageID)])"
  using assms
  by (simp add: buildRootDevice_def resolveImage_def Let_def fi_Bool_def fi_Int64_def
      fi_StringValue_gp2 rootDeviceMapping_def)

lemma buildRootDevice_success:
  assumes "buildRootDevice cloud imageID opts calls = (Some (Inr mappings), calls')"
  shows "\<exists>c img ropts. cloud = Some c \<and> opts = Some ropts
     \<and> ResolveImage c (fi_StringValue imageID) = (Some img, None)"
  using assms
  by (auto simp: buildRootDevice_def resolveImage_def Let_def
      split: option.splits prod.splits sum.splits)

text \<open>
  C1: whenever \<^verbatim>\<open>buildRootDevice\<close> succeeds, the image was resolved, and the map it
  returns has exactly one entry, keyed by the image's root device name. The mapping
  of that entry has delete-on-termination set to true, the volume size and the volume
  type of the options, and IOPS if and only if the options give IOPS and the volume
  type is not "gp2"; IOPS, when present, is the options' value. With type "gp2" IOPS
  is never included, with type "io1" and 3000 IOPS it is included as 3000.
\<close>

theorem buildRootDevice_mapping:
  assumes "buildRootDevice cloud imageID opts calls = (Some (Inr mappings), calls')"
  shows "\<exists>c img ropts m.
       cloud = Some c \<and> opts = Some ropts
     \<and> ResolveImage c (fi_StringValue imageID) = (Some img, None)
     \<and> dom mappings = {fi_StringValue (RootDeviceName img)}
     \<and> mappings (fi_StringValue (RootDeviceName img)) = Some m
     \<and> EbsDeleteOnTermination m = Some True
     \<and> EbsVolumeSize m = Some (scast (fi_Int32Value (Size ropts)))
     \<and> map_option sint (EbsVolumeSize m) = Some (sint (fi_Int32Value (Size ropts)))
     \<and> EbsVolumeType m = Type ropts
     \<and> (EbsVolumeIops m \<noteq> None) =
         (RootVolumeOpts.IOPS ropts \<noteq> None \<and> Type ropts \<noteq> Some ''gp2'')
     \<and> (\<forall>n. EbsVolumeIops m = Some n \<longrightarrow>
           (\<exists>k. RootVolumeOpts.IOPS ropts = Some k \<and> n = scast k \<and> sint n = sint k))
     \<and> (Type ropts = Some ''gp2'' \<longrightarrow> EbsVolumeIops m = None)
     \<and> (Type ropts = Some ''io1'' \<and> RootVolumeOpts.IOPS ropts = Some 3000
           \<longrightarrow> EbsVolumeIops m = Some 3000)"
proof -
  from assms obtain c img ropts where
    args: "cloud = Some c" "opts = Some ropts"
    and resolved: "ResolveImage c (fi_StringValue imageID) = (Some img, None)"
    using buildRootDevice_success by blast
  let ?name = "fi_StringValue (RootDeviceName img)"
  from assms args buildRootDevice_resolved [OF resolved, of ropts calls]
  have mappings: "mappings = [?name \<mapsto> rootDeviceMapping ropts]"
    by simp
  have "dom mappings = {?name}" "mappings ?name = Some (rootDeviceMapping ropts)"
    by (simp_all add: mappings)
  moreover have "EbsDeleteOnTermination (rootDeviceMapping ropts) = Some True"
    "EbsVolumeSize (rootDeviceMapping ropts) = Some (scast (fi_Int32Value (Size ropts)))"
    "EbsVolumeType (rootDeviceMapping ropts) = Type ropts"
    by (simp_all add: rootDeviceMapping_def)
  moreover have "(EbsVolumeIops (rootDeviceMapping ropts) \<noteq> None) =
         (RootVolumeOpts.IOPS ropts \<noteq> None \<and> Type ropts \<noteq> Some ''gp2'')"
    by (simp add: rootDeviceMapping_def)
  moreover have "map_option sint (EbsVolumeSize (rootDeviceMapping ropts))
      = Some (sint (fi_Int32Value (Size ropts)))"
    by (simp add: rootDeviceMapping_def sint_up_scast is_up)
  moreover have "\<forall>n. EbsVolumeIops (rootDeviceMapping ropts) = Some n \<longrightarrow>
      (\<exists>k. RootVolumeOpts.IOPS ropts = Some k \<and> n = scast k \<and> sint n = sint k)"
    by (auto simp: rootDeviceMapping_def fi_Int32Value_def sint_up_scast is_up
        split: if_splits)
  moreover have "Type ropts = Some ''gp2'' \<longrightarrow> EbsVolumeIops (rootDeviceMapping ropts) = None"
    by (simp add: rootDeviceMapping_def)
  moreover have "Type ropts = Some ''io1'' \<and> RootVolumeOpts.IOPS ropts = Some 3000
           \<longrightarrow> EbsVolumeIops (rootDeviceMapping ropts) = Some 3000"
    by (simp add: rootDeviceMapping_def fi_Int32Value_def)
  ultimately show ?thesis
    using args resolved by blast
qed


theorem buildRootDevice_mapping_witness:
  "buildRootDevice (Some resolving_cloud) (Some ''ami-1'') (Some io1_opts) [] =
     (Some (Inr [''/dev/xvda'' \<mapsto>
        \<lparr>BlockDeviceMapping.VirtualName = None, EbsDeleteOnTermination = Some True,
         EbsVolumeSize = Some 64, EbsVolumeType = Some ''io1'',
         EbsVolumeIops = Some 3000\<rparr>]), [Call_ResolveImage ''ami-1''])
   \<and> buildRootDevice (Some resolving_cloud) (Some ''ami-1'') (Some gp2_opts) [] =
     (Some (Inr [''/dev/xvda'' \<mapsto>
        \<lparr>BlockDeviceMapping.VirtualName = None, EbsDeleteOnTermination = Some True,
         EbsVolumeSize = Some 64, EbsVolumeType = Some ''gp2'',
         EbsVolumeIops = None\<rparr>]), [Call_ResolveImage ''ami-1''])"
proof -
  have io1: "buildRootDevice (Some resolving_cloud) (Some ''ami-1'') (Some io1_opts) [] =
     (Some (Inr [''/dev/xvda'' \<mapsto>
        \<lparr>BlockDeviceMapping.VirtualName = None, EbsDeleteOnTermination = Some True,
         EbsVolumeSize = Some 64, EbsVolumeType = Some ''io1'',
         EbsVolumeIops = Some 3000\<rparr>]), [Call_ResolveImage ''ami-1''])"
    by (simp add: buildRootDevice_def resolveImage_def resolving_cloud_def xvda_image_def
        io1_opts_def Let_def fi_Bool_def fi_Int64_def fi_Int32Value_def fi_StringValue_def)
  have gp2: "buildRootDevice (Some resolving_cloud) (Some ''ami-1'') (Some gp2_opts) [] =
     (Some (Inr [''/dev/xvda'' \<mapsto>
        \<lparr>BlockDeviceMapping.VirtualName = None, EbsDeleteOnTermination = Some True,
         EbsVolumeSize = Some 64, EbsVolumeType = Some ''gp2'',
         EbsVolumeIops = None\<rparr>]), [Call_ResolveImage ''ami-1''])"
    by (simp add: buildRootDevice_def resolveImage_def resolving_cloud_def xvda_image_def
        gp2_opts_def Let_def fi_Bool_def fi_Int64_def fi_Int32Value_def fi_StringValue_def)
  from buildRootDevice_mapping [OF io1] buildRootDevice_mapping [OF gp2] io1 gp2
  show ?thesis by simp
qed

text \<open>
  C3, as the code has it: \<^verbatim>\<open>buildEphemeralDevices\<close> returns the error of the
  machine-type collaborator itself, while \<^verbatim>\<open>buildRootDevice\<close> returns the error that
  \<^verbatim>\<open>resolveImage\<close> makes from the collaborator's: a new \<^verbatim>\<open>fmt.Errorf\<close> value that
  carries the image name and the collaborator's error as its arguments.
\<close>

theorem collaborator_errors:
  "(GetMachineTypeInfo name = (info, Some e) \<longrightarrow>
      buildEphemeralDevices GetMachineTypeInfo (Some name) calls =
        (Some (Inl e), calls @ [Call_GetMachineTypeInfo name]))
   \<and> (ResolveImage cloud (fi_StringValue imageID) = (img, Some e) \<longrightarrow>
      buildRootDevice (Some cloud) imageID opts calls =
        (Some (Inl (Errorf ''spotinst: unable to resolve image %q: %v''
                      [ArgString (fi_StringValue imageID), ArgError e])),
         calls @ [Call_ResolveImage (fi_StringValue imageID)]))"
  by (simp add: buildEphemeralDevices_def buildRootDevice_def resolveImage_def Let_def)

theorem collaborator_errors_witness:
  "buildEphemeralDevices failing_machine_types (Some ''m5.large'') [] =
     (Some (Inl (External ''unknown instance type'')), [Call_GetMachineTypeInfo ''m5.large''])
   \<and> buildRootDevice (Some failing_cloud) (Some ''ami-1'') (Some io1_opts) [] =
     (Some (Inl (Errorf ''spotinst: unable to resolve image %q: %v''
                   [ArgString ''ami-1'', ArgError (External ''RequestLimitExceeded'')])),
      [Call_ResolveImage ''ami-1''])"
  using collaborator_errors [of failing_machine_types "''m5.large''" None
     "External ''unknown instance type''" "[]"]
    collaborator_errors [of failing_machine_types "''m5.large''" None
     "External ''RequestLimitExceeded''" "[]" failing_cloud "Some ''ami-1''" None "Some io1_opts"]
  by (simp add: failing_machine_types_def failing_cloud_def fi_StringValue_def)

text \<open>
  C3 as stated fails for \<^verbatim>\<open>buildRootDevice\<close>: the collaborator fails with one error
  and the caller receives a different one.
\<close>

theorem buildRootDevice_error_counterexample:
  "ResolveImage failing_cloud (fi_StringValue (Some ''ami-1'')) =
     (None, Some (External ''RequestLimitExceeded''))
   \<and> fst (buildRootDevice (Some failing_cloud) (Some ''ami-1'') (Some io1_opts) []) \<noteq>
       Some (Inl (External ''RequestLimitExceeded''))"
  by (simp add: buildRootDevice_def resolveImage_def failing_cloud_def Let_def)

text \<open>
  C6: with a nil instance type, \<^verbatim>\<open>buildEphemeralDevices\<close> returns the required-field
  error for "InstanceType", whatever the collaborator is, and the log of collaborator
  calls is unchanged: the collaborator is not called.
\<close>

theorem buildEphemeralDevices_nil:
  "buildEphemeralDevices GetMachineTypeInfo None calls =
     (Some (Inl (RequiredField ''InstanceType'')), calls)"
  by (simp add: buildEphemeralDevices_def)


theorem buildEphemeralDevices_nil_witness:
  "buildEphemeralDevices failing_machine_types None [] =
     (Some (Inl (RequiredField ''InstanceType'')), [])"
  using buildEphemeralDevices_nil [of failing_machine_types "[]"] by simp

text \<open>
  C4: \<^verbatim>\<open>buildBlockDeviceMapping\<close> on an internal mapping always returns a wire record
  with the device name and the virtual name copied through. The record has an EBS
  part if and only if delete-on-termination, the volume size or the volume type is
  set (IOPS alone does not count), and that part has IOPS if and only if the input
  has IOPS and its volume type is not "gp2".
\<close>

theorem buildBlockDeviceMapping_wire:
  "\<exists>out. buildBlockDeviceMapping deviceName (Some i) = Some out
     \<and> awseg_BlockDeviceMapping.DeviceName out = Some deviceName
     \<and> awseg_BlockDeviceMapping.VirtualName out = BlockDeviceMapping.VirtualName i
     \<and> (EBS out \<noteq> None) =
         (EbsDeleteOnTermination i \<noteq> None \<or> EbsVolumeSize i \<noteq> None \<or> EbsVolumeType i \<noteq> None)
     \<and> (\<forall>ebs. EBS out = Some ebs \<longrightarrow>
           (awseg_EBS.IOPS ebs \<noteq> None) =
             (EbsVolumeIops i \<noteq> None \<and> EbsVolumeType i \<noteq> Some ''gp2''))"
  by (simp add: buildBlockDeviceMapping_def Let_def fi_String_def fi_Int_def fi_StringValue_gp2)

theorem buildBlockDeviceMapping_wire_witness:
  "buildBlockDeviceMapping ''/dev/xvda'' (Some io1_mapping) =
     Some \<lparr>awseg_BlockDeviceMapping.DeviceName = Some ''/dev/xvda'',
           VirtualName = Some ''ephemeral0'',
           EBS = Some \<lparr>DeleteOnTermination = None, VolumeSize = Some (0 :: 64 word),
                       VolumeType = Some ''io1'', IOPS = Some 3000\<rparr>\<rparr>"
  using buildBlockDeviceMapping_wire [of "''/dev/xvda''" io1_mapping, where ?'a = 64]
  by (simp add: buildBlockDeviceMapping_def io1_mapping_def Let_def fi_String_def fi_Int_def
      fi_Int64Value_def fi_StringValue_def)

text \<open>
  C10: whenever the input sets delete-on-termination, the volume size or the volume
  type, \<^verbatim>\<open>buildBlockDeviceMapping\<close> attaches an EBS part whose volume size is always
  present: 0 when the input has no size and the input's size otherwise.
  Delete-on-termination and the volume type of that part are the input's own
  pointers, absent when they are absent there.
\<close>

theorem buildBlockDeviceMapping_volume_size:
  assumes "EbsDeleteOnTermination i \<noteq> None \<or> EbsVolumeSize i \<noteq> None
      \<or> EbsVolumeType i \<noteq> None"
  shows "\<exists>out ebs. buildBlockDeviceMapping deviceName (Some i) = Some out
     \<and> EBS out = Some ebs
     \<and> VolumeSize ebs = Some (scast (fi_Int64Value (EbsVolumeSize i)))
     \<and> (EbsVolumeSize i = None \<longrightarrow> VolumeSize ebs = Some 0)
     \<and> (\<forall>n. EbsVolumeSize i = Some n \<longrightarrow> VolumeSize ebs = Some (scast n))
     \<and> DeleteOnTermination ebs = EbsDeleteOnTermination i
     \<and> VolumeType ebs = EbsVolumeType i"
  using assms
  by (auto simp: buildBlockDeviceMapping_def Let_def fi_Int_def fi_Int64Value_def)

theorem buildBlockDeviceMapping_volume_size_witness:
  "buildBlockDeviceMapping ''/dev/xvdb'' (Some delete_only_mapping) =
     Some \<lparr>awseg_BlockDeviceMapping.DeviceName = Some ''/dev/xvdb'',
           VirtualName = None,
           EBS = Some \<lparr>DeleteOnTermination = Some True, VolumeSize = Some (0 :: 64 word),
                       VolumeType = None, IOPS = None\<rparr>\<rparr>"
proof -
  have set: "EbsDeleteOnTermination delete_only_mapping \<noteq> None
      \<or> EbsVolumeSize delete_only_mapping \<noteq> None
      \<or> EbsVolumeType delete_only_mapping \<noteq> None"
    by (simp add: delete_only_mapping_def)
  from buildBlockDeviceMapping_volume_size [OF set, of "''/dev/xvdb''"]
  obtain out :: "64 awseg_BlockDeviceMapping" and ebs where
    out: "buildBlockDeviceMapping ''/dev/xvdb'' (Some delete_only_mapping) = Some out"
    and ebs: "EBS out = Some ebs"
    and size: "VolumeSize ebs = Some 0"
    and rest: "DeleteOnTermination ebs = Some True" "VolumeType ebs = None"
    by (auto simp: delete_only_mapping_def)
  have names: "awseg_BlockDeviceMapping.DeviceName out = Some ''/dev/xvdb''"
    "awseg_BlockDeviceMapping.VirtualName out = None"
    and iops: "awseg_EBS.IOPS ebs = None"
    using out ebs
    by (auto simp: buildBlockDeviceMapping_def delete_only_mapping_def Let_def fi_String_def
        fi_StringValue_def)
  from ebs size rest iops names have "out =
     \<lparr>awseg_BlockDeviceMapping.DeviceName = Some ''/dev/xvdb'',
           VirtualName = None,
           EBS = Some \<lparr>DeleteOnTermination = Some True, VolumeSize = Some (0 :: 64 word),
                       VolumeType = None, IOPS = None\<rparr>\<rparr>"
    by (cases out, cases ebs) simp
  with out show ?thesis by simp
qed


subsection \<open>Tags and labels\<close>

lemma fold_append_slice:
  "fold (\<lambda>(key, value) out. append_slice out (f key value)) entries (Slice acc) =
     Slice (acc @ map (\<lambda>(key, value). f key value) entries)"
  by (induction entries arbitrary: acc) (auto simp: append_slice_def)

lemma range_map_eq:
  assumes "iteration_order order m"
  shows "range_map order m = map (\<lambda>k. (k, the (m k))) order"
proof -
  have "\<forall>k \<in> set order. m k \<noteq> None"
    using assms by (auto simp: iteration_order_def)
  then show ?thesis
    unfolding range_map_def
    by (induction order) (auto simp: List.map_filter_simps)
qed

lemma range_map_length:
  assumes "iteration_order order m"
  shows "length (range_map order m) = card (dom m)"
  using assms by (simp add: range_map_eq) (metis distinct_card iteration_order_def)

lemma range_map_set:
  assumes "iteration_order order m"
  shows "set (range_map order m) = Map.graph m"
  using assms
  by (auto simp: range_map_eq iteration_order_def Map.graph_def image_iff)

lemma range_map_empty:
  assumes "iteration_order order Map.empty"
  shows "range_map order Map.empty = []"
  using assms by (simp add: iteration_order_def range_map_def List.map_filter_simps)

lemma mapper_entries:
  assumes order: "iteration_order order m"
    and fields: "\<And>k v. g (f k v) = (Some k, Some v)"
  shows "\<exists>out. fold (\<lambda>(key, value) out. append_slice out (f key value))
                 (range_map order m) (make_empty n) = Slice out
            \<and> length out = card (dom m)
            \<and> g ` set out = (\<lambda>(k, v). (Some k, Some v)) ` Map.graph m
            \<and> (m = Map.empty \<longrightarrow> out = [])"
proof -
  let ?out = "map (\<lambda>(key, value). f key value) (range_map order m)"
  have "fold (\<lambda>(key, value) out. append_slice out (f key value))
          (range_map order m) (make_empty n) = Slice ?out"
    by (simp add: make_empty_def fold_append_slice)
  moreover have "length ?out = card (dom m)"
    by (simp add: range_map_length [OF order])
  moreover have "g ` set ?out = (\<lambda>(k, v). (Some k, Some v)) ` Map.graph m"
    by (simp add: range_map_set [OF order, symmetric] image_image case_prod_beta fields)
  moreover have "m = Map.empty \<longrightarrow> ?out = []"
    using order range_map_empty by auto
  ultimately show ?thesis by blast
qed

text \<open>
  C8: for a map with N keys, visited in any order Go may choose, each of
  \<^verbatim>\<open>buildElastigroupTags\<close>, \<^verbatim>\<open>buildOceanTags\<close>, \<^verbatim>\<open>buildAutoScaleLabels\<close> and
  \<^verbatim>\<open>buildOceanLabels\<close> returns a non-nil slice of exactly N records whose (key, value)
  pairs are the entries of the map; for the empty map the slice is empty and not nil.
\<close>

theorem tag_mappers_entries:
  assumes "iteration_order order m"
  shows "(\<exists>out. buildElastigroupTags order m = Slice out
            \<and> length out = card (dom m)
            \<and> (\<lambda>t. (awseg_Tag.Key t, awseg_Tag.Value t)) ` set out
                = (\<lambda>(k, v). (Some k, Some v)) ` Map.graph m
            \<and> (m = Map.empty \<longrightarrow> out = []))
     \<and> (\<exists>out. buildOceanTags order m = Slice out
            \<and> length out = card (dom m)
            \<and> (\<lambda>t. (awsoc_Tag.Key t, awsoc_Tag.Value t)) ` set out
                = (\<lambda>(k, v). (Some k, Some v)) ` Map.graph m
            \<and> (m = Map.empty \<longrightarrow> out = []))
     \<and> (\<exists>out. buildAutoScaleLabels order m = Slice out
            \<and> length out = card (dom m)
            \<and> (\<lambda>t. (awseg_AutoScaleLabel.Key t, awseg_AutoScaleLabel.Value t)) ` set out
                = (\<lambda>(k, v). (Some k, Some v)) ` Map.graph m
            \<and> (m = Map.empty \<longrightarrow> out = []))
     \<and> (\<exists>out. buildOceanLabels order m = Slice out
            \<and> length out = card (dom m)
            \<and> (\<lambda>t. (awsoc_Label.Key t, awsoc_Label.Value t)) ` set out
                = (\<lambda>(k, v). (Some k, Some v)) ` Map.graph m
            \<and> (m = Map.empty \<longrightarrow> out = []))"
  unfolding buildElastigroupTags_def buildOceanTags_def buildAutoScaleLabels_def
    buildOceanLabels_def
  by (intro conjI mapper_entries [OF assms]) (simp_all add: fi_String_def)

theorem tag_mappers_entries_witness:
  "iteration_order [''env'', ''Name''] two_tags
   \<and> buildElastigroupTags [''env'', ''Name''] two_tags =
       Slice [\<lparr>awseg_Tag.Key = Some ''env'', Value = Some ''prod''\<rparr>,
              \<lparr>awseg_Tag.Key = Some ''Name'', Value = Some ''nodes''\<rparr>]
   \<and> card (dom two_tags) = 2
   \<and> iteration_order [] (Map.empty :: string \<rightharpoonup> string)
   \<and> buildOceanLabels [] Map.empty = Slice []"
proof -
  have order: "iteration_order [''env'', ''Name''] two_tags"
    by (auto simp: iteration_order_def two_tags_def)
  have none: "iteration_order [] (Map.empty :: string \<rightharpoonup> string)"
    by (simp add: iteration_order_def)
  have "buildElastigroupTags [''env'', ''Name''] two_tags =
       Slice [\<lparr>awseg_Tag.Key = Some ''env'', Value = Some ''prod''\<rparr>,
              \<lparr>awseg_Tag.Key = Some ''Name'', Value = Some ''nodes''\<rparr>]"
    by (simp add: buildElastigroupTags_def range_map_def List.map_filter_simps two_tags_def
        make_empty_def append_slice_def fi_String_def)
  with tag_mappers_entries [OF order] tag_mappers_entries [OF none] order none
  show ?thesis by auto
qed

subsection \<open>Subnets\<close>

lemma left_ids_all_set:
  assumes "\<forall>s \<in> set ls. ID s \<noteq> None"
  shows "left_ids (map Some ls) acc = Some (if ls = [] then acc else Slice (elems acc @ map (the \<circ> ID) ls))"
  using assms
proof (induction ls arbitrary: acc)
  case Nil
  then show ?case by simp
next
  case (Cons s ls)
  then obtain ident where "ID s = Some ident" by auto
  with Cons show ?case by (simp add: append_slice_def)
qed

lemma left_ids_unset:
  assumes "Some s \<in> set l" and "ID s = None"
  shows "left_ids l acc = None"
  using assms
  by (induction l acc rule: left_ids.induct) (auto split: option.splits)

lemma right_ids_all_set:
  assumes "\<forall>s \<in> set rs. ID s \<noteq> None"
  shows "right_ids (map Some rs) acc =
     Some (Inr (if rs = [] then acc else Slice (elems acc @ map (the \<circ> ID) rs)))"
  using assms
proof (induction rs arbitrary: acc)
  case Nil
  then show ?case by simp
next
  case (Cons s rs)
  then obtain ident where "ID s = Some ident" by auto
  with Cons show ?case by (simp add: append_slice_def)
qed

lemma right_ids_unset:
  assumes "s \<in> set rs" and "ID s = None"
  shows "right_ids (map Some rs) acc = Some (Inl False)"
  using assms
  by (induction rs arbitrary: acc) (auto split: option.splits)

lemma set_identifiers:
  assumes "\<forall>s \<in> set ls. ID s \<noteq> None" and "\<forall>s \<in> set rs. ID s \<noteq> None"
  shows "(set (map (the \<circ> ID) ls) = set (map (the \<circ> ID) rs)) = (ID ` set ls = ID ` set rs)"
proof -
  have l: "ID ` set ls = Some ` set (map (the \<circ> ID) ls)"
    using assms(1) by (force simp: image_iff)
  have r: "ID ` set rs = Some ` set (map (the \<circ> ID) rs)"
    using assms(2) by (force simp: image_iff)
  show ?thesis
    unfolding l r by (simp add: inj_image_eq_iff)
qed

lemma subnets_all_set:
  assumes "\<forall>s \<in> set ls. ID s \<noteq> None" and "\<forall>s \<in> set rs. ID s \<noteq> None"
  shows "subnetSlicesEqualIgnoreOrder (map Some ls) (map Some rs) =
     Some (ID ` set ls = ID ` set rs)"
proof -
  have "subnetSlicesEqualIgnoreOrder (map Some ls) (map Some rs) =
     Some (set (map (the \<circ> ID) ls) = set (map (the \<circ> ID) rs))"
    by (simp add: subnetSlicesEqualIgnoreOrder_def left_ids_all_set [OF assms(1)]
        right_ids_all_set [OF assms(2)] StringSlicesEqualIgnoreOrder_def)
  then show ?thesis
    by (simp only: set_identifiers [OF assms])
qed

lemma subnets_left_unset:
  assumes "Some s \<in> set l" and "ID s = None"
  shows "subnetSlicesEqualIgnoreOrder l r = None"
  by (simp add: subnetSlicesEqualIgnoreOrder_def left_ids_unset [OF assms])

text \<open>
  C5: when every subnet on the right has an identifier, the comparison returns true
  if and only if the two sequences have the same set of identifiers, whatever the
  order and however often an identifier is repeated; when the subnets on the left
  have identifiers too, it returns exactly that truth value.
\<close>

theorem subnet_set_equality:
  assumes "\<forall>s \<in> set rs. ID s \<noteq> None"
  shows "(subnetSlicesEqualIgnoreOrder (map Some ls) (map Some rs) = Some True)
           = (ID ` set ls = ID ` set rs)
     \<and> ((\<forall>s \<in> set ls. ID s \<noteq> None) \<longrightarrow>
          subnetSlicesEqualIgnoreOrder (map Some ls) (map Some rs)
            = Some (ID ` set ls = ID ` set rs))"
proof (cases "\<forall>s \<in> set ls. ID s \<noteq> None")
  case True
  then show ?thesis
    using subnets_all_set [OF True assms] by simp
next
  case False
  then obtain s where s: "s \<in> set ls" "ID s = None" by blast
  then have "subnetSlicesEqualIgnoreOrder (map Some ls) (map Some rs) = None"
    by (intro subnets_left_unset [of s]) auto
  moreover have "None \<in> ID ` set ls" "None \<notin> ID ` set rs"
    using s assms by (force simp: image_iff)+
  ultimately show ?thesis
    using False by auto
qed

theorem subnet_set_equality_witness:
  "subnetSlicesEqualIgnoreOrder [Some subnet_a, Some subnet_b] [Some subnet_b, Some subnet_a]
     = Some True
   \<and> subnetSlicesEqualIgnoreOrder [Some subnet_a, Some subnet_a, Some subnet_b]
       [Some subnet_a, Some subnet_b] = Some True
   \<and> subnetSlicesEqualIgnoreOrder [Some subnet_a] [Some subnet_b, Some subnet_a]
     = Some False"
  using subnet_set_equality [of "[subnet_b, subnet_a]" "[subnet_a, subnet_b]"]
    subnet_set_equality [of "[subnet_a, subnet_b]" "[subnet_a, subnet_a, subnet_b]"]
    subnet_set_equality [of "[subnet_b, subnet_a]" "[subnet_a]"]
  by (auto simp: subnet_a_def subnet_b_def)

text \<open>
  C9: a subnet without identifier is treated differently on the two sides. On the
  right (the left being complete) the function returns false; on the left the
  identifier is dereferenced unchecked and the function panics, whatever the right
  side is.
\<close>

theorem subnet_missing_identifier:
  "((\<forall>s \<in> set ls. ID s \<noteq> None) \<and> (\<exists>s \<in> set rs. ID s = None) \<longrightarrow>
      subnetSlicesEqualIgnoreOrder (map Some ls) (map Some rs) = Some False)
   \<and> ((\<exists>s. Some s \<in> set l \<and> ID s = None) \<longrightarrow> subnetSlicesEqualIgnoreOrder l r = None)"
proof (intro conjI impI)
  assume "(\<forall>s \<in> set ls. ID s \<noteq> None) \<and> (\<exists>s \<in> set rs. ID s = None)"
  then obtain s where l: "\<forall>s \<in> set ls. ID s \<noteq> None" and s: "s \<in> set rs" "ID s = None"
    by blast
  show "subnetSlicesEqualIgnoreOrder (map Some ls) (map Some rs) = Some False"
    by (simp add: subnetSlicesEqualIgnoreOrder_def left_ids_all_set [OF l]
        right_ids_unset [OF s])
next
  assume "\<exists>s. Some s \<in> set l \<and> ID s = None"
  then show "subnetSlicesEqualIgnoreOrder l r = None"
    using subnets_left_unset by blast
qed

theorem subnet_missing_identifier_witness:
  "subnetSlicesEqualIgnoreOrder [Some subnet_a] [Some subnet_unset] = Some False
   \<and> subnetSlicesEqualIgnoreOrder [Some subnet_unset] [Some subnet_a] = None
   \<and> subnetSlicesEqualIgnoreOrder [Some subnet_unset] [Some subnet_unset] = None"
  using subnet_missing_identifier [of "[subnet_a]" "[subnet_unset]" "[Some subnet_unset]"
      "[Some subnet_a]"]
    subnet_missing_identifier [of "[subnet_a]" "[subnet_unset]" "[Some subnet_unset]"
      "[Some subnet_unset]"]
  by (simp add: subnet_a_def subnet_unset_def)

subsection \<open>Taints\<close>

lemma longest_first_Some:
  assumes "longest_first n s k = Some m"
  shows "\<exists>j. 0 < j \<and> j \<le> n \<and> k (take j s) (drop j s) = Some m"
  using assms
proof (induction n)
  case 0
  then show ?case by simp
next
  case (Suc n)
  show ?case
  proof (cases "k (take (Suc n) s) (drop (Suc n) s)")
    case None
    with Suc obtain j where "0 < j" "j \<le> n" "k (take j s) (drop j s) = Some m"
      by auto
    then show ?thesis by (intro exI [of _ j]) simp
  next
    case (Some m')
    with Suc.prems have "m' = m" by simp
    with Some show ?thesis by (intro exI [of _ "Suc n"]) simp
  qed
qed

lemma longest_first_greedy:
  assumes "0 < j" and "j \<le> n"
    and "k (take j s) (drop j s) = Some m"
    and "\<And>i. j < i \<Longrightarrow> i \<le> n \<Longrightarrow> k (take i s) (drop i s) = None"
  shows "longest_first n s k = Some m"
  using assms(2,4)
proof (induction n)
  case 0
  with assms(1) show ?case by simp
next
  case (Suc n)
  show ?case
  proof (cases "j = Suc n")
    case True
    with assms(3) show ?thesis by simp
  next
    case False
    with Suc.prems(1) have "j \<le> n" "j < Suc n" by simp_all
    then have "k (take (Suc n) s) (drop (Suc n) s) = None"
      using Suc.prems(2) by simp
    moreover have "longest_first n s k = Some m"
      using Suc.IH \<open>j \<le> n\<close> Suc.prems(2) by simp
    ultimately show ?thesis by simp
  qed
qed

lemma literal_Some:
  assumes "literal c s k = Some m"
  shows "\<exists>rest. s = c # rest \<and> k rest = Some m"
  using assms by (auto simp: literal_def split: list.splits if_splits)

lemma literal_drop_None:
  assumes "c \<notin> set s"
  shows "literal c (drop i s) k = None"
proof (cases "drop i s")
  case Nil
  then show ?thesis by (simp add: literal_def)
next
  case (Cons x rest)
  then have "x \<in> set (drop i s)" by simp
  then have "x \<in> set s" by (rule in_set_dropD)
  with assms have "x \<noteq> c" by auto
  with Cons show ?thesis by (simp add: literal_def)
qed

lemma match_here_groups:
  assumes "match_here s = Some m"
  shows "\<exists>whole key val effect. m = [whole, key, val, effect]"
proof -
  from assms obtain j1 where
    "literal (CHR ''='') (drop j1 s) (\<lambda>s2.
         dot_plus s2 (\<lambda>val s3.
           literal (CHR '':'') s3 (\<lambda>s4.
             dot_plus s4 (\<lambda>effect s5.
               Some [take j1 s @ ''='' @ val @ '':'' @ effect, take j1 s, val, effect])))) = Some m"
    unfolding match_here_def dot_plus_def by (blast dest: longest_first_Some)
  then obtain s2 where
    "dot_plus s2 (\<lambda>val s3.
           literal (CHR '':'') s3 (\<lambda>s4.
             dot_plus s4 (\<lambda>effect s5.
               Some [take j1 s @ ''='' @ val @ '':'' @ effect, take j1 s, val, effect]))) = Some m"
    by (blast dest: literal_Some)
  then obtain j2 where
    "literal (CHR '':'') (drop j2 s2) (\<lambda>s4.
             dot_plus s4 (\<lambda>effect s5.
               Some [take j1 s @ ''='' @ take j2 s2 @ '':'' @ effect, take j1 s, take j2 s2, effect]))
       = Some m"
    unfolding dot_plus_def by (blast dest: longest_first_Some)
  then obtain s4 where
    "dot_plus s4 (\<lambda>effect s5.
               Some [take j1 s @ ''='' @ take j2 s2 @ '':'' @ effect, take j1 s, take j2 s2, effect])
       = Some m"
    by (blast dest: literal_Some)
  then obtain j3 where
    "Some [take j1 s @ ''='' @ take j2 s2 @ '':'' @ take j3 s4, take j1 s, take j2 s2, take j3 s4]
       = Some m"
    unfolding dot_plus_def by (blast dest: longest_first_Some)
  then show ?thesis by blast
qed

lemma FindStringSubmatch_groups:
  "FindStringSubmatch s = [] \<or> (\<exists>whole key val effect. FindStringSubmatch s = [whole, key, val, effect])"
proof (induction s)
  case Nil
  then show ?case
    using match_here_groups [of "[]"] by (cases "match_here []") auto
next
  case (Cons c rest)
  then show ?case
    using match_here_groups [of "c # rest"] by (cases "match_here (c # rest)") auto
qed

lemma assign_groups_nil:
  "assign_groups (enumerate 0 SubexpNames) [] taint = Some taint"
  by (simp add: SubexpNames_def)

lemma assign_groups_match:
  "assign_groups (enumerate 0 SubexpNames) [whole, key, val, effect]
     \<lparr>awsoc_Taint.Key = None, Value = None, Effect = None\<rparr> =
   Some \<lparr>awsoc_Taint.Key = Some key, Value = Some val, Effect = Some effect\<rparr>"
  by (simp add: SubexpNames_def fi_String_def)

lemma taints_loop_step:
  "taints_loop (t # taints) out =
     taints_loop taints (case parsed_taint t of None \<Rightarrow> out | Some taint \<Rightarrow> append_slice out taint)"
  using FindStringSubmatch_groups [of t]
  by (auto simp: parsed_taint_def assign_groups_nil assign_groups_match)

lemma taints_loop_elems:
  "\<exists>res. taints_loop taints out = Some res
     \<and> elems res = elems out @ List.map_filter parsed_taint taints"
proof (induction taints arbitrary: out)
  case Nil
  then show ?case by (simp add: List.map_filter_simps)
next
  case (Cons t taints)
  show ?case
  proof (cases "parsed_taint t")
    case None
    with Cons [of out] show ?thesis
      by (simp add: taints_loop_step List.map_filter_simps del: taints_loop.simps)
  next
    case (Some taint)
    with Cons [of "append_slice out taint"] show ?thesis
      by (simp add: taints_loop_step List.map_filter_simps append_slice_def
          del: taints_loop.simps)
  qed
qed

text \<open>
  C7: \<^verbatim>\<open>buildOceanTaints\<close> never fails. Its result holds, in the order of the input,
  one record for each string in which the pattern matches, with the three groups of
  the match, and nothing for a string in which it does not match; the strings after
  a dropped one are still processed. "malformed" yields no record and
  "dedicated=true:NoSchedule" yields the record dedicated, true, NoSchedule.
\<close>

theorem buildOceanTaints_drops_malformed:
  "(\<exists>out. buildOceanTaints taints = Some (Inr out)
        \<and> elems out = List.map_filter parsed_taint taints)
   \<and> (parsed_taint t = None) = (FindStringSubmatch t = [])
   \<and> parsed_taint ''malformed'' = None
   \<and> parsed_taint ''dedicated=true:NoSchedule'' =
       Some \<lparr>awsoc_Taint.Key = Some ''dedicated'', Value = Some ''true'',
             Effect = Some ''NoSchedule''\<rparr>"
proof -
  have "\<exists>out. buildOceanTaints taints = Some (Inr out)
        \<and> elems out = List.map_filter parsed_taint taints"
    using taints_loop_elems [of taints NilSlice] by (auto simp: buildOceanTaints_def)
  moreover have "(parsed_taint t = None) = (FindStringSubmatch t = [])"
    using FindStringSubmatch_groups [of t] by (auto simp: parsed_taint_def)
  moreover have "parsed_taint ''malformed'' = None"
    by code_simp
  moreover have "parsed_taint ''dedicated=true:NoSchedule'' =
       Some \<lparr>awsoc_Taint.Key = Some ''dedicated'', Value = Some ''true'',
             Effect = Some ''NoSchedule''\<rparr>"
    by code_simp
  ultimately show ?thesis by blast
qed

theorem buildOceanTaints_drops_malformed_witness:
  "buildOceanTaints [''malformed'', ''dedicated=true:NoSchedule''] =
     Some (Inr (Slice [\<lparr>awsoc_Taint.Key = Some ''dedicated'', Value = Some ''true'',
             Effect = Some ''NoSchedule''\<rparr>]))
   \<and> FindStringSubmatch ''malformed'' = []"
proof -
  have "buildOceanTaints [''malformed'', ''dedicated=true:NoSchedule''] =
     Some (Inr (Slice [\<lparr>awsoc_Taint.Key = Some ''dedicated'', Value = Some ''true'',
             Effect = Some ''NoSchedule''\<rparr>]))"
    by code_simp
  with buildOceanTaints_drops_malformed
    [of "[''malformed'', ''dedicated=true:NoSchedule'']" "''malformed''"]
  show ?thesis by metis
qed

lemma dot_plus_all:
  assumes "\<forall>c \<in> set s. dot c"
  shows "dot_plus s k = longest_first (length s) s k"
  using assms by (simp add: dot_plus_def takeWhile_eq_all_conv [THEN iffD2])

lemma match_here_greedy:
  assumes nonempty: "key \<noteq> []" "val \<noteq> []" "effect \<noteq> []"
    and dots: "\<forall>c \<in> set (key @ val @ effect). dot c"
    and no_eq: "CHR ''='' \<notin> set val" "CHR ''='' \<notin> set effect"
    and no_colon: "CHR '':'' \<notin> set effect"
  shows "match_here (key @ ''='' @ val @ '':'' @ effect) =
     Some [key @ ''='' @ val @ '':'' @ effect, key, val, effect]"
proof -
  let ?m = "\<lambda>k. [k @ ''='' @ val @ '':'' @ effect, k, val, effect]"
  let ?K3 = "\<lambda>k v. (\<lambda>e (s5 :: string). Some [k @ ''='' @ v @ '':'' @ e, k, v, e])"
  let ?K2 = "\<lambda>k. (\<lambda>v s3. literal (CHR '':'') s3 (\<lambda>s4. dot_plus s4 (?K3 k v)))"
  let ?K1 = "\<lambda>k s1. literal (CHR ''='') s1 (\<lambda>s2. dot_plus s2 (?K2 k))"
  have effect_all: "\<forall>c \<in> set effect. dot c"
    and rest_all: "\<forall>c \<in> set (val @ '':'' @ effect). dot c"
    and whole_all: "\<forall>c \<in> set (key @ ''='' @ val @ '':'' @ effect). dot c"
    using dots by (auto simp: dot_def)
  have step3: "dot_plus effect (?K3 k v) = Some [k @ ''='' @ v @ '':'' @ effect, k, v, effect]"
    for k v
  proof -
    from nonempty(3) obtain n where "length effect = Suc n"
      by (cases effect) auto
    then show ?thesis
      by (simp add: dot_plus_all [OF effect_all])
  qed
  have step2: "dot_plus (val @ '':'' @ effect) (?K2 k) = Some (?m k)" for k
    unfolding dot_plus_all [OF rest_all]
  proof (rule longest_first_greedy [where j = "length val"])
    show "0 < length val" using nonempty(2) by simp
    show "length val \<le> length (val @ '':'' @ effect)" by simp
    show "?K2 k (take (length val) (val @ '':'' @ effect))
            (drop (length val) (val @ '':'' @ effect)) = Some (?m k)"
      using step3 [of k val] by (simp add: literal_def)
  next
    fix i assume "length val < i"
    then obtain d where "i = Suc (length val + d)"
      using less_imp_Suc_add by blast
    then have "drop i (val @ '':'' @ effect) = drop d effect"
      by simp
    then show "?K2 k (take i (val @ '':'' @ effect)) (drop i (val @ '':'' @ effect)) = None"
      using literal_drop_None [OF no_colon] by simp
  qed
  have no_eq_rest: "CHR ''='' \<notin> set (val @ '':'' @ effect)"
    using no_eq by simp
  have "dot_plus (key @ ''='' @ val @ '':'' @ effect) ?K1 = Some (?m key)"
    unfolding dot_plus_all [OF whole_all]
  proof (rule longest_first_greedy [where j = "length key"])
    show "0 < length key" using nonempty(1) by simp
    show "length key \<le> length (key @ ''='' @ val @ '':'' @ effect)" by simp
    show "?K1 (take (length key) (key @ ''='' @ val @ '':'' @ effect))
            (drop (length key) (key @ ''='' @ val @ '':'' @ effect)) = Some (?m key)"
      using step2 [of key] by (simp add: literal_def)
  next
    fix i assume "length key < i"
    then obtain d where "i = Suc (length key + d)"
      using less_imp_Suc_add by blast
    then have "drop i (key @ ''='' @ val @ '':'' @ effect) = drop d (val @ '':'' @ effect)"
      by simp
    then show "?K1 (take i (key @ ''='' @ val @ '':'' @ effect))
        (drop i (key @ ''='' @ val @ '':'' @ effect)) = None"
      using literal_drop_None [OF no_eq_rest] by simp
  qed
  then show ?thesis
    by (simp add: match_here_def)
qed

lemma FindStringSubmatch_here:
  assumes "match_here s = Some m"
  shows "FindStringSubmatch s = m"
  using assms by (cases s) simp_all

text \<open>
  C2, as the code has it: in a string \<open>key=value:effect\<close> whose three segments are not
  empty and hold no newline, where neither the value nor the effect holds a further
  \<open>=\<close> and the effect holds no further \<open>:\<close>, the parser cuts at the last \<open>=\<close> and at
  the last \<open>:\<close>. The key is all that precedes the last \<open>=\<close>, and the effect all that
  follows the last \<open>:\<close>.
\<close>

theorem buildOceanTaints_greedy:
  assumes "key \<noteq> []" and "val \<noteq> []" and "effect \<noteq> []"
    and "CHR 0x0A \<notin> set (key @ val @ effect)"
    and "CHR ''='' \<notin> set val" and "CHR ''='' \<notin> set effect"
    and "CHR '':'' \<notin> set effect"
  shows "buildOceanTaints [key @ ''='' @ val @ '':'' @ effect] =
     Some (Inr (Slice [\<lparr>awsoc_Taint.Key = Some key, Value = Some val, Effect = Some effect\<rparr>]))"
proof -
  have "\<forall>c \<in> set (key @ val @ effect). dot c"
    using assms(4) by (auto simp: dot_def)
  from match_here_greedy [OF assms(1-3) this assms(5-7)]
  have "FindStringSubmatch (key @ ''='' @ val @ '':'' @ effect) =
      [key @ ''='' @ val @ '':'' @ effect, key, val, effect]"
    by (rule FindStringSubmatch_here)
  then show ?thesis
    by (simp add: buildOceanTaints_def assign_groups_match append_slice_def)
qed

theorem buildOceanTaints_greedy_witness:
  "buildOceanTaints [''a=b=c:d''] =
     Some (Inr (Slice [\<lparr>awsoc_Taint.Key = Some ''a=b'', Value = Some ''c'', Effect = Some ''d''\<rparr>]))
   \<and> buildOceanTaints [''k=v:e1:e2''] =
     Some (Inr (Slice [\<lparr>awsoc_Taint.Key = Some ''k'', Value = Some ''v:e1'', Effect = Some ''e2''\<rparr>]))"
proof -
  have "buildOceanTaints [''a=b'' @ ''='' @ ''c'' @ '':'' @ ''d''] =
     Some (Inr (Slice [\<lparr>awsoc_Taint.Key = Some ''a=b'', Value = Some ''c'', Effect = Some ''d''\<rparr>]))"
    by (rule buildOceanTaints_greedy) simp_all
  moreover have "buildOceanTaints [''k'' @ ''='' @ ''v:e1'' @ '':'' @ ''e2''] =
     Some (Inr (Slice [\<lparr>awsoc_Taint.Key = Some ''k'', Value = Some ''v:e1'', Effect = Some ''e2''\<rparr>]))"
    by (rule buildOceanTaints_greedy) simp_all
  ultimately show ?thesis by simp
qed

text \<open>
  C2 as stated fails: in "a=b=c:d" the key is "a=b", not the segment before the
  first \<open>=\<close>.
\<close>

theorem buildOceanTaints_first_equals_counterexample:
  "buildOceanTaints [''a=b=c:d''] =
     Some (Inr (Slice [\<lparr>awsoc_Taint.Key = Some ''a=b'', Value = Some ''c'', Effect = Some ''d''\<rparr>]))
   \<and> buildOceanTaints [''a=b=c:d''] \<noteq>
     Some (Inr (Slice [\<lparr>awsoc_Taint.Key = Some ''a'', Value = Some ''b=c'', Effect = Some ''d''\<rparr>]))"
proof -
  have "buildOceanTaints [''a=b=c:d''] =
     Some (Inr (Slice [\<lparr>awsoc_Taint.Key = Some ''a=b'', Value = Some ''c'', Effect = Some ''d''\<rparr>]))"
    by code_simp
  then show ?thesis by simp
qed

end
